theory Spec2Isabelle
  imports Main "HOL-Library.Word"
begin

unbundle bit_operations_syntax

section \<open>SWire: constants and data\<close>

text \<open>
  A \<open>char\<close> of the source is a byte. Every comparison of the source is between two
  \<open>char\<close> values (or masks the low seven bits), so the signedness of \<open>char\<close> does not
  show and a byte is an \<open>8 word\<close>.
\<close>

type_synonym byte = "8 word"

text \<open>Control characters of SWire.h.\<close>

definition ACK :: byte where "ACK = 0x86"
definition NAK :: byte where "NAK = 0x95"
definition START :: byte where "START = 0x82"
definition END :: byte where "END = 0x83"
definition WRITE :: byte where "WRITE = 0xD7"
definition READ :: byte where "READ = 0xD2"
definition NO_DATA :: byte where "NO_DATA = 0xB0"
definition PING :: byte where "PING = 0xB1"
definition ESC :: byte where "ESC = 0x9B"

definition MAX_CLIENTS :: nat where "MAX_CLIENTS = 16"
definition MAX_MSG_LEN :: nat where "MAX_MSG_LEN = 16"
definition MAX_MASTER_QUEUE_SIZE :: nat where "MAX_MASTER_QUEUE_SIZE = 40"
definition MAX_CLIENT_QUEUE_SIZE :: nat where "MAX_CLIENT_QUEUE_SIZE = 20"

text \<open>
  Every failure of the C code that has no defined behaviour is a value: a write or read
  through an array index outside the array, a \<open>strcpy\<close> that runs over the end of
  its destination, and a use of the null pointer.
\<close>

datatype error = IndexOutOfBounds int | BufferOverflow | NullPointer

subsection \<open>Buffers and C strings\<close>

text \<open>
  A \<open>char\<close> array is the list of its bytes. The C string held in it is the bytes before
  the first NUL; a list without a NUL is read to its end.
\<close>

definition cstr :: "byte list \<Rightarrow> byte list" where
  "cstr m = takeWhile (\<lambda>c. c \<noteq> 0) m"

definition strlen :: "byte list \<Rightarrow> nat" where
  "strlen m = length (cstr m)"

text \<open>\<open>a[i] = v\<close> and \<open>a[i]\<close> with the index checked against the array.\<close>

definition arr_write :: "byte list \<Rightarrow> int \<Rightarrow> byte \<Rightarrow> error + byte list" where
  "arr_write a i v =
     (if 0 \<le> i \<and> i < int (length a) then Inr (a[nat i := v]) else Inl (IndexOutOfBounds i))"

definition arr_read :: "byte list \<Rightarrow> int \<Rightarrow> error + byte" where
  "arr_read a i =
     (if 0 \<le> i \<and> i < int (length a) then Inr (a ! nat i) else Inl (IndexOutOfBounds i))"

text \<open>
  \<open>strcpy(dest + off, src)\<close>: the characters of the C string \<open>src\<close> and its
  terminating NUL are written from offset \<open>off\<close>; the other bytes of \<open>dest\<close> stay.
\<close>

definition strcpy :: "byte list \<Rightarrow> nat \<Rightarrow> byte list \<Rightarrow> error + byte list" where
  "strcpy dest off src =
     (let s = cstr src in
      if off + length s + 1 \<le> length dest
      then Inr (take off dest @ s @ [0] @ drop (off + length s + 1) dest)
      else Inl BufferOverflow)"

section \<open>The framer: readPacket\<close>

text \<open>The static variables of \<open>readPacket\<close>, kept from one call to the next.\<close>

record framer =
  in_packet :: int
  index :: int
  buf :: "byte list"
  data_parity :: byte
  escape_next :: int

text \<open>The statics as the program starts: zero, \<open>buf\<close> of \<open>MAX_MSG_LEN + 1\<close> bytes.\<close>

definition framer_idle :: framer where
  "framer_idle = \<lparr>in_packet = 0, index = 0, buf = replicate (MAX_MSG_LEN + 1) 0,
                  data_parity = 0, escape_next = 0\<rparr>"

text \<open>
  Lines 59 to 66 of SWire.cpp: a byte other than START received inside a packet is
  folded into the parity, and stored unless it is END.
\<close>

definition accumulate :: "framer \<Rightarrow> byte \<Rightarrow> error + framer" where
  "accumulate st rc =
     (let st1 = st\<lparr>data_parity := data_parity st XOR rc\<rparr> in
      if rc \<noteq> END then
        (case arr_write (buf st1) (index st1) rc of
           Inl e \<Rightarrow> Inl e
         | Inr b \<Rightarrow> Inr (st1\<lparr>buf := b, escape_next := 0, index := index st1 + 1\<rparr>))
      else Inr st1)"

text \<open>
  Lines 69 to 83: the index steps back onto the parity byte, which is overwritten with
  NUL, the C string in \<open>buf\<close> is copied out, the statics are reset and the result is
  \<open>1\<close> or \<open>-1\<close>.
\<close>

definition terminate :: "framer \<Rightarrow> byte list \<Rightarrow> error + (int \<times> framer \<times> byte list)" where
  "terminate st buffer =
     (let i = index st - 1 in
      case arr_write (buf st) i 0 of
        Inl e \<Rightarrow> Inl e
      | Inr b \<Rightarrow>
          (case strcpy buffer 0 b of
             Inl e \<Rightarrow> Inl e
           | Inr out \<Rightarrow>
               (let passed_parity = (data_parity st AND 0x7F = 0) in
                Inr (if passed_parity then 1 else - 1,
                     st\<lparr>buf := b, index := 0, in_packet := 0, data_parity := 0\<rparr>,
                     out))))"

text \<open>
  \<open>readPacket st rx buffer\<close>: \<open>rx\<close> is what \<open>Wire.available\<close> and \<open>Wire.read\<close>
  deliver, \<open>buffer\<close> the caller's array. The result is the return value, the statics,
  the bytes left unread and the caller's array.
\<close>

fun readPacket ::
  "framer \<Rightarrow> byte list \<Rightarrow> byte list \<Rightarrow> error + (int \<times> framer \<times> byte list \<times> byte list)" where
  "readPacket st [] buffer = Inr (0, st, [], buffer)"
| "readPacket st (rc # rx) buffer =
     (if rc = START then
        readPacket (st\<lparr>in_packet := 1, data_parity := START, index := 0\<rparr>) rx buffer
      else if in_packet st = 1 then
        (case accumulate st rc of
           Inl e \<Rightarrow> Inl e
         | Inr st1 \<Rightarrow>
             if rc = END \<or> index st1 \<ge> int MAX_MSG_LEN then
               (case terminate st1 buffer of
                  Inl e \<Rightarrow> Inl e
                | Inr (r, st2, out) \<Rightarrow> Inr (r, st2, rx, out))
             else readPacket st1 rx buffer)
      else readPacket st rx buffer)"

section \<open>The transport and the serializer: sendPacket\<close>

text \<open>
  The Wire object, as far as the library uses it: the bytes received and not yet read,
  the address and bytes of the transmission being written, and the transmissions
  completed so far.
\<close>

record wire =
  rx_avail :: "byte list"
  tx_addr :: byte
  tx_buf :: "byte list"
  tx_log :: "(byte \<times> byte list) list"

definition Wire_beginTransmission :: "byte \<Rightarrow> wire \<Rightarrow> wire" where
  "Wire_beginTransmission a w = w\<lparr>tx_addr := a, tx_buf := []\<rparr>"

definition Wire_write :: "byte \<Rightarrow> wire \<Rightarrow> wire" where
  "Wire_write c w = w\<lparr>tx_buf := tx_buf w @ [c]\<rparr>"

definition Wire_endTransmission :: "wire \<Rightarrow> wire" where
  "Wire_endTransmission w = w\<lparr>tx_log := tx_log w @ [(tx_addr w, tx_buf w)], tx_buf := []\<rparr>"

text \<open>The two loops of \<open>sendPacket\<close>, each running to the first NUL of the message.\<close>

fun parity_loop :: "byte list \<Rightarrow> byte \<Rightarrow> byte" where
  "parity_loop [] p = p"
| "parity_loop (c # cs) p = (if c = 0 then p else parity_loop cs (p XOR c))"

fun write_loop :: "byte list \<Rightarrow> wire \<Rightarrow> wire" where
  "write_loop [] w = w"
| "write_loop (c # cs) w = (if c = 0 then w else write_loop cs (Wire_write c w))"

definition sendPacket :: "byte list \<Rightarrow> wire \<Rightarrow> int \<times> wire" where
  "sendPacket message w =
     (if strlen message = 0 then (0, w)
      else
        (let data_parity = parity_loop message 0;
             w1 = Wire_beginTransmission (hd message) w;
             w2 = Wire_write START w1;
             w3 = write_loop message w2;
             w4 = Wire_write (START XOR data_parity XOR END) w3;
             w5 = Wire_write END w4
         in (1, Wire_endTransmission w5)))"

text \<open>The Wire object before anything was received or sent.\<close>

definition wire_idle :: wire where
  "wire_idle = \<lparr>rx_avail = [], tx_addr = 0, tx_buf = [], tx_log = []\<rparr>"

text \<open>The bytes \<open>sendPacket\<close> puts on the bus for a message.\<close>

definition frame_of :: "byte list \<Rightarrow> byte list" where
  "frame_of message = concat (map snd (tx_log (snd (sendPacket message wire_idle))))"

text \<open>\<open>Wire.write(data, quantity)\<close>: the first \<open>quantity\<close> bytes of \<open>data\<close>.\<close>

definition Wire_write_bytes :: "byte list \<Rightarrow> nat \<Rightarrow> wire \<Rightarrow> wire" where
  "Wire_write_bytes data quantity w = fold Wire_write (take quantity data) w"

text \<open>
  \<open>Wire.requestFrom(a, quantity)\<close> on the master. The devices on the bus are a parameter:
  \<open>peer a\<close> is what the device at address \<open>a\<close> supplies when bytes are requested from
  it, empty when no device answers. The bytes obtained replace the receive buffer and
  their number is returned. \<open>Wire.read()\<close> takes the next byte, \<open>-1\<close> (as a \<open>char\<close>:
  0xFF) when there is none.
\<close>

definition Wire_requestFrom :: "(byte \<Rightarrow> byte list) \<Rightarrow> byte \<Rightarrow> nat \<Rightarrow> wire \<Rightarrow> nat \<times> wire" where
  "Wire_requestFrom peer a quantity w =
     (let got = take quantity (peer a) in (length got, w\<lparr>rx_avail := got\<rparr>))"

definition Wire_read :: "wire \<Rightarrow> byte \<times> wire" where
  "Wire_read w = (case rx_avail w of [] \<Rightarrow> (0xFF, w) | c # cs \<Rightarrow> (c, w\<lparr>rx_avail := cs\<rparr>))"

section \<open>The message queue\<close>

text \<open>
  Modelled from the spec: stringQueue.h and its implementation are not among the
  sources. The spec's bounded FIFO of messages: the capacity is fixed when the queue is
  initialised.
\<close>

record stringQueue =
  items :: "byte list list"
  capacity :: nat

text \<open>Modelled from the spec: a queue is empty after initialisation.\<close>

definition stringQueueInit :: "nat \<Rightarrow> stringQueue" where
  "stringQueueInit cap = \<lparr>items = [], capacity = cap\<rparr>"

text \<open>
  Modelled from the spec: \<open>push\<close> is "false and no-op if full or allocation fails".
  \<open>node_ok\<close> says whether the queue obtains the storage it needs for the entry.
\<close>

definition stringQueueAdd :: "stringQueue \<Rightarrow> byte list \<Rightarrow> bool \<Rightarrow> bool \<times> stringQueue" where
  "stringQueueAdd q msg node_ok =
     (if length (items q) < capacity q \<and> node_ok
      then (True, q\<lparr>items := items q @ [msg]\<rparr>)
      else (False, q))"

text \<open>Modelled from the spec: \<open>isEmpty\<close>.\<close>

definition stringQueueIsEmpty :: "stringQueue \<Rightarrow> bool" where
  "stringQueueIsEmpty q = (items q = [])"

text \<open>
  Modelled from the spec: \<open>pop\<close> "returns nothing if empty, else removes and returns
  the oldest entry".
\<close>

definition stringQueueRemove :: "stringQueue \<Rightarrow> byte list option \<times> stringQueue" where
  "stringQueueRemove q =
     (case items q of [] \<Rightarrow> (None, q) | m # ms \<Rightarrow> (Some m, q\<lparr>items := ms\<rparr>))"

section \<open>The client responder\<close>

text \<open>
  The variables at file scope of SWire.cpp, with the statics of \<open>readPacket\<close> and the
  Wire object.
\<close>

record globals =
  in_messages :: stringQueue
  out_messages :: stringQueue
  currentCommand :: byte
  bufferAlocFailed :: bool
  statics :: framer
  Wire :: wire

text \<open>
  The globals before any constructor has run: \<open>currentCommand\<close> is \<open>NO_DATA\<close>, the
  flag is clear, the rest is zero.
\<close>

definition globals_init :: globals where
  "globals_init = \<lparr>in_messages = \<lparr>items = [], capacity = 0\<rparr>,
                    out_messages = \<lparr>items = [], capacity = 0\<rparr>,
                    currentCommand = NO_DATA, bufferAlocFailed = False,
                    statics = framer_idle, Wire = wire_idle\<rparr>"

text \<open>The transport has received \<open>bytes\<close> for this node and is about to call the handler.\<close>

definition deliver :: "byte list \<Rightarrow> globals \<Rightarrow> globals" where
  "deliver bytes g = g\<lparr>Wire := (Wire g)\<lparr>rx_avail := bytes\<rparr>\<rparr>"

text \<open>
  \<open>malloc(MAX_MSG_LEN + 1)\<close> is a parameter of each function that calls it: \<open>None\<close>
  when the allocation fails, otherwise the block with the bytes it happens to hold,
  which C leaves indeterminate.
\<close>

definition receiveEvent ::
  "int \<Rightarrow> byte list option \<Rightarrow> bool \<Rightarrow> globals \<Rightarrow> error + globals" where
  "receiveEvent howMany fresh node_ok g =
     (case fresh of
        None \<Rightarrow> Inr (g\<lparr>bufferAlocFailed := True\<rparr>)
      | Some buffer0 \<Rightarrow>
          (case readPacket (statics g) (rx_avail (Wire g)) buffer0 of
             Inl e \<Rightarrow> Inl e
           | Inr (result, st, rest, buffer) \<Rightarrow>
               (case arr_read buffer 1 of
                  Inl e \<Rightarrow> Inl e
                | Inr cmd \<Rightarrow>
                    (let g1 = g\<lparr>statics := st, Wire := (Wire g)\<lparr>rx_avail := rest\<rparr>,
                                currentCommand := cmd\<rparr>
                     in if cmd \<noteq> PING \<and> cmd \<noteq> READ \<and> cmd \<noteq> NO_DATA
                        then Inr (g1\<lparr>in_messages :=
                                      snd (stringQueueAdd (in_messages g1) buffer node_ok)\<rparr>)
                        else Inr g1))))"

definition requestEvent :: "globals \<Rightarrow> error + globals" where
  "requestEvent g =
     (let answered =
        (if currentCommand g = NO_DATA then Inr (g\<lparr>Wire := Wire_write NO_DATA (Wire g)\<rparr>)
         else if currentCommand g \<noteq> READ then Inr (g\<lparr>Wire := Wire_write ACK (Wire g)\<rparr>)
         else if stringQueueIsEmpty (out_messages g) then
           Inr (g\<lparr>Wire := Wire_write 0 (Wire g)\<rparr>)
         else
           (case stringQueueRemove (out_messages g) of
              (None, q) \<Rightarrow> Inl NullPointer
            | (Some message, q) \<Rightarrow>
                Inr (g\<lparr>out_messages := q,
                       Wire := Wire_write_bytes message (strlen message) (Wire g)\<rparr>)))
      in case answered of
           Inl e \<Rightarrow> Inl e
         | Inr g1 \<Rightarrow> Inr (g1\<lparr>currentCommand := NO_DATA\<rparr>))"

record SWireClient =
  client_number :: byte

text \<open>The constructor; the registration of the two handlers is not part of the state.\<close>

definition SWireClient_new :: "byte \<Rightarrow> globals \<Rightarrow> SWireClient \<times> globals" where
  "SWireClient_new client_number' g =
     (\<lparr>client_number = client_number'\<rparr>,
      g\<lparr>in_messages := stringQueueInit MAX_CLIENT_QUEUE_SIZE,
        out_messages := stringQueueInit MAX_CLIENT_QUEUE_SIZE\<rparr>)"

definition SWireClient_sendData ::
  "SWireClient \<Rightarrow> byte list \<Rightarrow> byte list option \<Rightarrow> bool \<Rightarrow> globals \<Rightarrow> error + (int \<times> globals)" where
  "SWireClient_sendData this data fresh node_ok g =
     (case fresh of
        None \<Rightarrow> Inr (0, g)
      | Some block \<Rightarrow>
          (case strcpy block 1 data of
             Inl e \<Rightarrow> Inl e
           | Inr copied \<Rightarrow>
               (case arr_write copied 0 (client_number this) of
                  Inl e \<Rightarrow> Inl e
                | Inr new_message \<Rightarrow>
                    Inr (1, g\<lparr>out_messages :=
                                snd (stringQueueAdd (out_messages g) new_message node_ok)\<rparr>))))"

section \<open>The master controller\<close>

record SWireMaster =
  num_clients :: byte
  clients :: "byte list"

definition SWireMaster_new :: "globals \<Rightarrow> SWireMaster \<times> globals" where
  "SWireMaster_new g =
     (\<lparr>num_clients = 0, clients = replicate MAX_CLIENTS 0\<rparr>,
      g\<lparr>in_messages := stringQueueInit MAX_MASTER_QUEUE_SIZE\<rparr>)"


text \<open>The body of the loop of \<open>identifyClients\<close> for the candidate \<open>i\<close>.\<close>

definition identify_step ::
  "(byte \<Rightarrow> byte list) \<Rightarrow> nat \<Rightarrow> SWireMaster \<Rightarrow> wire \<Rightarrow> error + (SWireMaster \<times> wire)" where
  "identify_step peer i this w =
     (let message = [of_nat i, PING, 0];
          w1 = snd (sendPacket message w);
          (n, w2) = Wire_requestFrom peer (of_nat i) 1 w1
      in if n \<noteq> 0 then
           (let (rc, w3) = Wire_read w2 in
            if rc = ACK then
              (case arr_write (clients this) (uint (num_clients this)) (of_nat i) of
                 Inl e \<Rightarrow> Inl e
               | Inr cl \<Rightarrow> Inr (this\<lparr>clients := cl, num_clients := num_clients this + 1\<rparr>, w3))
            else Inr (this, w3))
         else Inr (this, w2))"

text \<open>\<open>for (int i = 1; i < MAX_CLIENTS; i++)\<close>, entered with the current \<open>i\<close>.\<close>

function identify_loop ::
  "(byte \<Rightarrow> byte list) \<Rightarrow> nat \<Rightarrow> SWireMaster \<Rightarrow> wire \<Rightarrow> error + (SWireMaster \<times> wire)" where
  "identify_loop peer i this w =
     (if i < MAX_CLIENTS then
        (case identify_step peer i this w of
           Inl e \<Rightarrow> Inl e
         | Inr (this1, w1) \<Rightarrow> identify_loop peer (i + 1) this1 w1)
      else Inr (this, w))"
  by pat_completeness auto
termination
  by (relation "measure (\<lambda>(peer, i, this, w). MAX_CLIENTS - i)") auto

definition SWireMaster_identifyClients ::
  "(byte \<Rightarrow> byte list) \<Rightarrow> SWireMaster \<Rightarrow> globals \<Rightarrow> error + (int \<times> SWireMaster \<times> globals)" where
  "SWireMaster_identifyClients peer this g =
     (let this0 = this\<lparr>num_clients := 0, clients := replicate MAX_CLIENTS 0\<rparr> in
      case identify_loop peer 1 this0 (Wire g) of
        Inl e \<Rightarrow> Inl e
      | Inr (this1, w) \<Rightarrow> Inr (uint (num_clients this1), this1, g\<lparr>Wire := w\<rparr>))"

section \<open>Notions used in the statements\<close>

text \<open>The exclusive-or of a sequence of bytes.\<close>

definition xor_bytes :: "byte list \<Rightarrow> byte" where
  "xor_bytes bs = foldr (XOR) bs 0"

text \<open>A START byte with an END byte right behind it occurs in the stream.\<close>

fun start_then_end :: "byte list \<Rightarrow> bool" where
  "start_then_end (a # b # rx) = ((a = START \<and> b = END) \<or> start_then_end (b # rx))"
| "start_then_end _ = False"

text \<open>
  What a call of \<open>readPacket\<close> hands to its caller: the return value and the C string
  in the caller's array.
\<close>

definition packet_of ::
  "error + (int \<times> framer \<times> byte list \<times> byte list) \<Rightarrow> (int \<times> byte list) option" where
  "packet_of res = (case res of Inl e \<Rightarrow> None | Inr (r, st, rest, out) \<Rightarrow> Some (r, cstr out))"

text \<open>
  What a receive event leaves behind: the pending command and the C strings on the
  inbound queue.
\<close>

definition client_view :: "error + globals \<Rightarrow> (byte \<times> byte list list) option" where
  "client_view res =
     (case res of
        Inl e \<Rightarrow> None
      | Inr g \<Rightarrow> Some (currentCommand g, map cstr (items (in_messages g))))"

text \<open>
  What a discovery run leaves behind: the count returned, the client table and the
  addresses of the transmissions made, in order.
\<close>

definition discovery_view ::
  "error + (int \<times> SWireMaster \<times> globals) \<Rightarrow> (int \<times> byte list \<times> byte list) option" where
  "discovery_view res =
     (case res of
        Inl e \<Rightarrow> None
      | Inr (n, this, g) \<Rightarrow> Some (n, clients this, map fst (tx_log (Wire g))))"


section \<open>Properties\<close>

lemmas ctrl_defs = ACK_def NAK_def START_def END_def WRITE_def READ_def NO_DATA_def
  PING_def ESC_def

subsection \<open>C strings, the serializer and the framer\<close>

lemma xor_bytes_simps [simp]:
  "xor_bytes [] = 0" "xor_bytes (b # bs) = b XOR xor_bytes bs"
  by (simp_all add: xor_bytes_def)

lemma xor_bytes_append: "xor_bytes (xs @ ys) = xor_bytes xs XOR xor_bytes ys"
  by (induction xs) (simp_all add: xor.assoc)

lemma cstr_Nil [simp]: "cstr [] = []"
  by (simp add: cstr_def)

lemma cstr_Cons: "cstr (c # cs) = (if c = 0 then [] else c # cstr cs)"
  by (simp add: cstr_def)

lemma zero_notin_cstr: "0 \<notin> set (cstr m)"
  by (auto simp: cstr_def dest: set_takeWhileD)

lemma cstr_no_nul: "0 \<notin> set p \<Longrightarrow> cstr p = p"
  by (induction p) (simp_all add: cstr_Cons)

lemma cstr_idem: "cstr (cstr m) = cstr m"
  by (rule cstr_no_nul [OF zero_notin_cstr])

lemma cstr_append_nul_any: "cstr (a @ 0 # b) = cstr a"
  by (induction a) (simp_all add: cstr_Cons)

lemma length_cstr_le: "length (cstr a) \<le> length a"
  by (simp add: cstr_def length_takeWhile_le)

lemma parity_loop_xor: "parity_loop m p = p XOR xor_bytes (cstr m)"
  by (induction m arbitrary: p) (simp_all add: cstr_Cons xor.assoc)

lemma write_loop_cstr: "write_loop m w = w\<lparr>tx_buf := tx_buf w @ cstr m\<rparr>"
  by (induction m arbitrary: w) (simp_all add: cstr_Cons Wire_write_def)

lemma sendPacket_frame:
  assumes "cstr message \<noteq> []"
  shows "sendPacket message w =
    (1, w\<lparr>tx_addr := hd message, tx_buf := [],
          tx_log := tx_log w @ [(hd message,
             START # cstr message @ [START XOR xor_bytes (cstr message) XOR END, END])]\<rparr>)"
  using assms
  by (simp add: sendPacket_def strlen_def parity_loop_xor write_loop_cstr Let_def
      Wire_write_def Wire_beginTransmission_def Wire_endTransmission_def)

lemma frame_of_eq:
  "cstr message \<noteq> [] \<Longrightarrow>
   frame_of message = START # cstr message @ [START XOR xor_bytes (cstr message) XOR END, END]"
  by (simp add: frame_of_def sendPacket_frame wire_idle_def)


subsection \<open>The framer inside a frame\<close>

lemma accumulate_store:
  assumes "rc \<noteq> END" "index st = int i" "i < length (buf st)"
  shows "accumulate st rc =
    Inr (st\<lparr>data_parity := data_parity st XOR rc, buf := (buf st)[i := rc],
           escape_next := 0, index := int i + 1\<rparr>)"
  using assms by (simp add: accumulate_def arr_write_def Let_def)

lemma accumulate_END:
  "accumulate st END = Inr (st\<lparr>data_parity := data_parity st XOR END\<rparr>)"
  by (simp add: accumulate_def Let_def)

lemma readPacket_body:
  assumes "in_packet st = 1" "index st = int i" "length (buf st) = MAX_MSG_LEN + 1"
    and "START \<notin> set bs" "END \<notin> set bs" "i + length bs < MAX_MSG_LEN"
  shows "\<exists>st'. readPacket st (bs @ rx) buffer = readPacket st' rx buffer
           \<and> in_packet st' = 1 \<and> index st' = int (i + length bs)
           \<and> length (buf st') = MAX_MSG_LEN + 1
           \<and> take (i + length bs) (buf st') = take i (buf st) @ bs
           \<and> data_parity st' = data_parity st XOR xor_bytes bs"
  using assms
proof (induction bs arbitrary: st i)
  case Nil
  then show ?case by auto
next
  case (Cons b bs)
  let ?st1 = "st\<lparr>data_parity := data_parity st XOR b, buf := (buf st)[i := b],
                 escape_next := 0, index := int i + 1\<rparr>"
  have b: "b \<noteq> START" "b \<noteq> END" using Cons.prems by auto
  have i: "i < length (buf st)" using Cons.prems by simp
  have acc: "accumulate st b = Inr ?st1"
    using b(2) Cons.prems(2) i by (rule accumulate_store)
  have small: "\<not> int MAX_MSG_LEN \<le> index ?st1" using Cons.prems by simp
  have step: "readPacket st ((b # bs) @ rx) buffer = readPacket ?st1 (bs @ rx) buffer"
    using b Cons.prems(1) acc small by simp
  have "\<exists>st'. readPacket ?st1 (bs @ rx) buffer = readPacket st' rx buffer
           \<and> in_packet st' = 1 \<and> index st' = int (Suc i + length bs)
           \<and> length (buf st') = MAX_MSG_LEN + 1
           \<and> take (Suc i + length bs) (buf st') = take (Suc i) (buf ?st1) @ bs
           \<and> data_parity st' = data_parity ?st1 XOR xor_bytes bs"
    using Cons.prems by (intro Cons.IH) auto
  then obtain st' where st': "readPacket ?st1 (bs @ rx) buffer = readPacket st' rx buffer"
    "in_packet st' = 1" "index st' = int (Suc i + length bs)"
    "length (buf st') = MAX_MSG_LEN + 1"
    "take (Suc i + length bs) (buf st') = take (Suc i) (buf ?st1) @ bs"
    "data_parity st' = data_parity ?st1 XOR xor_bytes bs"
    by blast
  have tk: "take (Suc i) (buf ?st1) = take i (buf st) @ [b]"
    using i by (simp add: take_Suc_conv_app_nth)
  show ?case
    using step st' tk by (intro exI [of _ st']) (simp add: xor.assoc)
qed

lemma terminate_ok:
  assumes "index st = int (Suc k)" "Suc k < length (buf st)" "k < length buffer"
  shows "\<exists>st' out. terminate st buffer =
            Inr (if data_parity st AND 0x7F = 0 then 1 else - 1, st', out)
           \<and> cstr out = cstr (take k (buf st)) \<and> in_packet st' = 0 \<and> index st' = 0
           \<and> length (buf st') = length (buf st) \<and> length out = length buffer"
proof -
  let ?c = "cstr (take k (buf st))"
  have k: "k < length (buf st)" using assms(2) by simp
  have w: "arr_write (buf st) (index st - 1) 0 = Inr ((buf st)[k := 0])"
    using assms(1) k by (simp add: arr_write_def)
  have "(buf st)[k := 0] = take k (buf st) @ 0 # drop (Suc k) (buf st)"
    using k by (rule upd_conv_take_nth_drop)
  then have c: "cstr ((buf st)[k := 0]) = ?c"
    by (simp add: cstr_append_nul_any)
  have "length ?c \<le> length (take k (buf st))" by (rule length_cstr_le)
  then have len: "length ?c < length buffer" using assms(3) k by simp
  have s: "strcpy buffer 0 ((buf st)[k := 0]) = Inr (?c @ 0 # drop (Suc (length ?c)) buffer)"
    using len by (simp add: strcpy_def c Let_def)
  have co: "cstr (?c @ 0 # drop (Suc (length ?c)) buffer) = ?c"
    by (simp add: cstr_append_nul_any cstr_idem)
  show ?thesis
    using len by (simp add: terminate_def w s co Let_def)
qed

lemma readPacket_frame_END:
  assumes "length (buf st) = MAX_MSG_LEN + 1" "length buffer = MAX_MSG_LEN + 1"
    and "body \<noteq> []" "length body < MAX_MSG_LEN" "START \<notin> set body" "END \<notin> set body"
  shows "\<exists>st' out. readPacket st (START # body @ END # rx) buffer =
            Inr (if (START XOR xor_bytes body XOR END) AND 0x7F = 0 then 1 else - 1,
                 st', rx, out)
           \<and> cstr out = cstr (butlast body) \<and> in_packet st' = 0 \<and> index st' = 0
           \<and> length (buf st') = MAX_MSG_LEN + 1"
proof -
  let ?st0 = "st\<lparr>in_packet := 1, data_parity := START, index := 0\<rparr>"
  have "\<exists>st1. readPacket ?st0 (body @ END # rx) buffer = readPacket st1 (END # rx) buffer
           \<and> in_packet st1 = 1 \<and> index st1 = int (0 + length body)
           \<and> length (buf st1) = MAX_MSG_LEN + 1
           \<and> take (0 + length body) (buf st1) = take 0 (buf ?st0) @ body
           \<and> data_parity st1 = data_parity ?st0 XOR xor_bytes body"
    using assms by (intro readPacket_body) auto
  then obtain st1 where st1:
    "readPacket ?st0 (body @ END # rx) buffer = readPacket st1 (END # rx) buffer"
    "in_packet st1 = 1" "index st1 = int (length body)" "length (buf st1) = MAX_MSG_LEN + 1"
    "take (length body) (buf st1) = body" "data_parity st1 = START XOR xor_bytes body"
    by auto
  let ?st2 = "st1\<lparr>data_parity := data_parity st1 XOR END\<rparr>"
  obtain k where k: "length body = Suc k"
    using assms(3) by (cases body) auto
  have tk: "take k (buf st1) = butlast body"
    using st1(5) k by (metis butlast_take diff_Suc_1 le_refl length_take min.absorb2 nat_le_linear take_all)
  have "\<exists>st' out. terminate ?st2 buffer =
            Inr (if data_parity ?st2 AND 0x7F = 0 then 1 else - 1, st', out)
           \<and> cstr out = cstr (take k (buf ?st2)) \<and> in_packet st' = 0 \<and> index st' = 0
           \<and> length (buf st') = length (buf ?st2) \<and> length out = length buffer"
    using st1 k assms by (intro terminate_ok) auto
  then obtain st' out where t: "terminate ?st2 buffer =
            Inr (if data_parity ?st2 AND 0x7F = 0 then 1 else - 1, st', out)"
     "cstr out = cstr (take k (buf st1))" "in_packet st' = 0" "index st' = 0"
     "length (buf st') = length (buf st1)"
    by auto
  have e: "END \<noteq> START" by (simp add: ctrl_defs)
  have "readPacket st1 (END # rx) buffer =
          Inr (if data_parity ?st2 AND 0x7F = 0 then 1 else - 1, st', rx, out)"
    using e st1(2) t(1) by (simp add: accumulate_END)
  then show ?thesis
    using st1 t tk by (intro exI [of _ st'] exI [of _ out]) (simp add: xor.assoc)
qed

lemma start_then_end_tail: "\<not> start_then_end (a # rx) \<Longrightarrow> \<not> start_then_end rx"
  by (cases rx) auto

lemma readPacket_safe:
  assumes "length (buf st) = MAX_MSG_LEN + 1" "0 \<le> index st" "index st < int MAX_MSG_LEN"
    and "length buffer = MAX_MSG_LEN + 1" "\<not> start_then_end rx"
    and "\<not> (in_packet st = 1 \<and> index st = 0 \<and> rx \<noteq> [] \<and> hd rx = END)"
  shows "\<exists>r st' rest out. readPacket st rx buffer = Inr (r, st', rest, out)
           \<and> length (buf st') = MAX_MSG_LEN + 1 \<and> 0 \<le> index st'
           \<and> index st' < int MAX_MSG_LEN"
  using assms
proof (induction rx arbitrary: st)
  case Nil
  then show ?case by simp
next
  case (Cons rc rx)
  have tail: "\<not> start_then_end rx" using Cons.prems(5) by (rule start_then_end_tail)
  show ?case
  proof (cases "rc = START")
    case True
    let ?st0 = "st\<lparr>in_packet := 1, data_parity := START, index := 0\<rparr>"
    have "\<not> (rx \<noteq> [] \<and> hd rx = END)"
      using Cons.prems(5) True by (cases rx) auto
    then have "\<exists>r st' rest out. readPacket ?st0 rx buffer = Inr (r, st', rest, out)
           \<and> length (buf st') = MAX_MSG_LEN + 1 \<and> 0 \<le> index st'
           \<and> index st' < int MAX_MSG_LEN"
      using Cons.prems tail by (intro Cons.IH) (auto simp: MAX_MSG_LEN_def)
    then show ?thesis using True by simp
  next
    case notS: False
    show ?thesis
    proof (cases "in_packet st = 1")
      case False
      then have "\<exists>r st' rest out. readPacket st rx buffer = Inr (r, st', rest, out)
           \<and> length (buf st') = MAX_MSG_LEN + 1 \<and> 0 \<le> index st'
           \<and> index st' < int MAX_MSG_LEN"
        using Cons.prems tail by (intro Cons.IH) auto
      then show ?thesis using notS False by simp
    next
      case inp: True
      show ?thesis
      proof (cases "rc = END")
        case True
        then have "index st \<noteq> 0" using Cons.prems(6) inp by simp
        then have "index st = int (Suc (nat (index st - 1)))"
          using Cons.prems(2) by simp
        then obtain k where k: "index st = int (Suc k)" ..
        let ?st2 = "st\<lparr>data_parity := data_parity st XOR END\<rparr>"
        have "\<exists>st' out. terminate ?st2 buffer =
            Inr (if data_parity ?st2 AND 0x7F = 0 then 1 else - 1, st', out)
           \<and> cstr out = cstr (take k (buf ?st2)) \<and> in_packet st' = 0 \<and> index st' = 0
           \<and> length (buf st') = length (buf ?st2) \<and> length out = length buffer"
          using k Cons.prems by (intro terminate_ok) auto
        then obtain st' out where "terminate ?st2 buffer =
            Inr (if data_parity ?st2 AND 0x7F = 0 then 1 else - 1, st', out)"
            "index st' = 0" "length (buf st') = length (buf st)"
          by auto
        then show ?thesis
          using notS inp True Cons.prems(1)
          by (simp add: accumulate_END MAX_MSG_LEN_def)
      next
        case notE: False
        have "index st = int (nat (index st))" "nat (index st) < MAX_MSG_LEN"
          using Cons.prems(2,3) by simp_all
        then obtain i where i: "index st = int i" "i < MAX_MSG_LEN" ..
        let ?st1 = "st\<lparr>data_parity := data_parity st XOR rc, buf := (buf st)[i := rc],
                 escape_next := 0, index := int i + 1\<rparr>"
        have acc: "accumulate st rc = Inr ?st1"
          using notE i Cons.prems(1) by (intro accumulate_store) auto
        show ?thesis
        proof (cases "int MAX_MSG_LEN \<le> index ?st1")
          case True
          have "\<exists>st' out. terminate ?st1 buffer =
            Inr (if data_parity ?st1 AND 0x7F = 0 then 1 else - 1, st', out)
           \<and> cstr out = cstr (take i (buf ?st1)) \<and> in_packet st' = 0 \<and> index st' = 0
           \<and> length (buf st') = length (buf ?st1) \<and> length out = length buffer"
            using i Cons.prems by (intro terminate_ok) auto
          then obtain st' out where "terminate ?st1 buffer =
            Inr (if data_parity ?st1 AND 0x7F = 0 then 1 else - 1, st', out)"
            "index st' = 0" "length (buf st') = length (buf ?st1)"
            by auto
          then show ?thesis
            using notS inp notE acc True Cons.prems(1)
            by (simp add: MAX_MSG_LEN_def)
        next
          case False
          have "\<exists>r st' rest out. readPacket ?st1 rx buffer = Inr (r, st', rest, out)
             \<and> length (buf st') = MAX_MSG_LEN + 1 \<and> 0 \<le> index st'
             \<and> index st' < int MAX_MSG_LEN"
            using Cons.prems tail False by (intro Cons.IH) auto
          then show ?thesis
            using notS inp notE acc False by simp
        qed
      qed
    qed
  qed
qed

lemma readPacket_frame_full:
  assumes "length (buf st) = MAX_MSG_LEN + 1" "length buffer = MAX_MSG_LEN + 1"
    and "length bs = MAX_MSG_LEN" "START \<notin> set bs" "END \<notin> set bs"
  shows "\<exists>st' out. readPacket st (START # bs @ rx) buffer =
            Inr (if (START XOR xor_bytes bs) AND 0x7F = 0 then 1 else - 1, st', rx, out)
           \<and> cstr out = cstr (butlast bs) \<and> in_packet st' = 0 \<and> index st' = 0
           \<and> length (buf st') = MAX_MSG_LEN + 1"
proof -
  let ?st0 = "st\<lparr>in_packet := 1, data_parity := START, index := 0\<rparr>"
  let ?front = "butlast bs"
  let ?b = "last bs"
  have ne: "bs \<noteq> []" using assms(3) by (auto simp: MAX_MSG_LEN_def)
  then have bs: "bs = ?front @ [?b]" by simp
  have fl: "length ?front = MAX_MSG_LEN - 1" using assms(3) by simp
  have fs: "START \<notin> set ?front" "END \<notin> set ?front"
    using assms(4,5) by (auto dest: in_set_butlastD)
  have b: "?b \<noteq> START" "?b \<noteq> END"
    using assms(4,5) ne last_in_set by metis+
  have "\<exists>st1. readPacket ?st0 (?front @ ?b # rx) buffer = readPacket st1 (?b # rx) buffer
           \<and> in_packet st1 = 1 \<and> index st1 = int (0 + length ?front)
           \<and> length (buf st1) = MAX_MSG_LEN + 1
           \<and> take (0 + length ?front) (buf st1) = take 0 (buf ?st0) @ ?front
           \<and> data_parity st1 = data_parity ?st0 XOR xor_bytes ?front"
    using assms(1) fs fl by (intro readPacket_body) (auto simp: MAX_MSG_LEN_def)
  then obtain st1 where st1:
    "readPacket ?st0 (?front @ ?b # rx) buffer = readPacket st1 (?b # rx) buffer"
    "in_packet st1 = 1" "index st1 = int (MAX_MSG_LEN - 1)"
    "length (buf st1) = MAX_MSG_LEN + 1"
    "take (MAX_MSG_LEN - 1) (buf st1) = ?front"
    "data_parity st1 = START XOR xor_bytes ?front"
    using fl by auto
  let ?st2 = "st1\<lparr>data_parity := data_parity st1 XOR ?b,
                 buf := (buf st1)[MAX_MSG_LEN - 1 := ?b],
                 escape_next := 0, index := int (MAX_MSG_LEN - 1) + 1\<rparr>"
  have acc: "accumulate st1 ?b = Inr ?st2"
    using b(2) st1(3) st1(4) by (intro accumulate_store) auto
  have "\<exists>st' out. terminate ?st2 buffer =
            Inr (if data_parity ?st2 AND 0x7F = 0 then 1 else - 1, st', out)
           \<and> cstr out = cstr (take (MAX_MSG_LEN - 1) (buf ?st2)) \<and> in_packet st' = 0
           \<and> index st' = 0
           \<and> length (buf st') = length (buf ?st2) \<and> length out = length buffer"
    using st1(4) assms(2) by (intro terminate_ok) (auto simp: MAX_MSG_LEN_def)
  then obtain st' out where t: "terminate ?st2 buffer =
            Inr (if data_parity ?st2 AND 0x7F = 0 then 1 else - 1, st', out)"
     "cstr out = cstr (take (MAX_MSG_LEN - 1) (buf ?st2))" "in_packet st' = 0" "index st' = 0"
     "length (buf st') = length (buf ?st2)"
    by auto
  have par: "data_parity ?st2 = START XOR xor_bytes bs"
    using st1(6) xor_bytes_append [of ?front "[?b]"] bs by (simp add: xor.assoc)
  have full: "int MAX_MSG_LEN \<le> index ?st2" by (simp add: MAX_MSG_LEN_def)
  have "readPacket st1 (?b # rx) buffer =
          Inr (if data_parity ?st2 AND 0x7F = 0 then 1 else - 1, st', rx, out)"
    using b(1) st1(2) acc full t(1) by simp
  then have "readPacket st (START # (?front @ [?b]) @ rx) buffer =
          Inr (if (START XOR xor_bytes bs) AND 0x7F = 0 then 1 else - 1, st', rx, out)"
    using st1(1) par by simp
  then have "readPacket st (START # bs @ rx) buffer =
          Inr (if (START XOR xor_bytes bs) AND 0x7F = 0 then 1 else - 1, st', rx, out)"
    using bs by simp
  then show ?thesis
    using t st1(4,5) by (intro exI [of _ st'] exI [of _ out]) simp
qed

lemma framer_idle_simps [simp]:
  "in_packet framer_idle = 0" "index framer_idle = 0"
  "length (buf framer_idle) = MAX_MSG_LEN + 1"
  by (simp_all add: framer_idle_def)

subsection \<open>Round trip, parity, oversized frames and the index of the framer\<close>

text \<open>
  C1, as the code has it. The message is a C string, so the payload is \<open>cstr message\<close>.
  For every non-empty payload of at most \<open>MAX_MSG_LEN - 2\<close> bytes that holds no START and
  no END byte, and whose parity byte is neither START nor END, the framer started idle on
  the bytes \<open>sendPacket\<close> emits returns 1, consumes every byte, and leaves exactly the
  payload in the caller's array.
\<close>

theorem framing_round_trip:
  assumes "cstr message \<noteq> []" "length (cstr message) + 2 \<le> MAX_MSG_LEN"
    and "START \<notin> set (cstr message)" "END \<notin> set (cstr message)"
    and "START XOR xor_bytes (cstr message) XOR END \<noteq> START"
    and "START XOR xor_bytes (cstr message) XOR END \<noteq> END"
    and "length buffer = MAX_MSG_LEN + 1"
  shows "\<exists>st out. readPacket framer_idle (frame_of message) buffer = Inr (1, st, [], out)
           \<and> cstr out = cstr message \<and> in_packet st = 0 \<and> index st = 0"
proof -
  let ?P = "cstr message"
  let ?pb = "START XOR xor_bytes ?P XOR END"
  let ?body = "?P @ [?pb]"
  have f: "frame_of message = START # ?body @ END # []"
    using assms(1) by (simp add: frame_of_eq)
  have z: "START XOR xor_bytes ?body XOR END = 0"
    by (simp add: xor_bytes_append ac_simps)
  have "\<exists>st' out. readPacket framer_idle (START # ?body @ END # []) buffer =
            Inr (if (START XOR xor_bytes ?body XOR END) AND 0x7F = 0 then 1 else - 1,
                 st', [], out)
           \<and> cstr out = cstr (butlast ?body) \<and> in_packet st' = 0 \<and> index st' = 0
           \<and> length (buf st') = MAX_MSG_LEN + 1"
    using assms by (intro readPacket_frame_END) auto
  then show ?thesis
    unfolding f z by (auto simp: cstr_idem)
qed

theorem framing_round_trip_witness:
  "cstr [5, 0x68, 0x69, 0] \<noteq> [] \<and> length (cstr [5, 0x68, 0x69, 0]) + 2 \<le> MAX_MSG_LEN
   \<and> START \<notin> set (cstr [5, 0x68, 0x69, 0]) \<and> END \<notin> set (cstr [5, 0x68, 0x69, 0])
   \<and> START XOR xor_bytes (cstr [5, 0x68, 0x69, 0]) XOR END \<noteq> START
   \<and> START XOR xor_bytes (cstr [5, 0x68, 0x69, 0]) XOR END \<noteq> END
   \<and> length (replicate 17 (0xAA :: byte)) = MAX_MSG_LEN + 1
   \<and> (\<exists>st out. readPacket framer_idle (frame_of [5, 0x68, 0x69, 0]) (replicate 17 0xAA)
                  = Inr (1, st, [], out)
         \<and> cstr out = [5, 0x68, 0x69] \<and> in_packet st = 0 \<and> index st = 0)"
  using framing_round_trip [of "[5, 0x68, 0x69, 0]" "replicate 17 0xAA"]
  by (simp add: cstr_Cons ctrl_defs MAX_MSG_LEN_def)

theorem framing_round_trip_counterexample:
  "packet_of (readPacket framer_idle (frame_of [1, END, 0]) (replicate 17 0xAA)) = Some (1, [])
   \<and> cstr [1, END, 0] = [1, END]
   \<and> packet_of (readPacket framer_idle (frame_of (replicate 15 1 @ [0])) (replicate 17 0xAA))
       = Some (- 1, replicate 15 1)"
  by code_simp

text \<open>
  C3, as the code has it. The parity byte the serializer emits is the exclusive-or of
  START, every payload byte and END. On a frame closed by END that holds fewer than
  \<open>MAX_MSG_LEN\<close> bytes between START and END, none of them START or END, the framer
  returns 1 exactly when the exclusive-or of START, the payload bytes, the parity byte
  and END is zero in its low seven bits, and \<open>-1\<close> otherwise: END is part of both
  computations.
\<close>

theorem parity_includes_END:
  "(cstr message \<noteq> [] \<longrightarrow>
      frame_of message =
        START # cstr message @ [START XOR xor_bytes (cstr message) XOR END, END])
   \<and> (length payload + 1 < MAX_MSG_LEN \<and> START \<notin> set (payload @ [pb])
        \<and> END \<notin> set (payload @ [pb]) \<and> length buffer = MAX_MSG_LEN + 1 \<longrightarrow>
       (\<exists>st out. readPacket framer_idle (START # payload @ [pb, END]) buffer =
          Inr (if (START XOR xor_bytes payload XOR pb XOR END) AND 0x7F = 0 then 1 else - 1,
               st, [], out)))"
proof (intro conjI impI)
  assume "cstr message \<noteq> []"
  then show "frame_of message =
        START # cstr message @ [START XOR xor_bytes (cstr message) XOR END, END]"
    by (rule frame_of_eq)
next
  assume a: "length payload + 1 < MAX_MSG_LEN \<and> START \<notin> set (payload @ [pb])
        \<and> END \<notin> set (payload @ [pb]) \<and> length buffer = MAX_MSG_LEN + 1"
  let ?body = "payload @ [pb]"
  have "\<exists>st' out. readPacket framer_idle (START # ?body @ END # []) buffer =
            Inr (if (START XOR xor_bytes ?body XOR END) AND 0x7F = 0 then 1 else - 1,
                 st', [], out)
           \<and> cstr out = cstr (butlast ?body) \<and> in_packet st' = 0 \<and> index st' = 0
           \<and> length (buf st') = MAX_MSG_LEN + 1"
    using a by (intro readPacket_frame_END) auto
  then show "\<exists>st out. readPacket framer_idle (START # payload @ [pb, END]) buffer =
          Inr (if (START XOR xor_bytes payload XOR pb XOR END) AND 0x7F = 0 then 1 else - 1,
               st, [], out)"
    by (auto simp: xor_bytes_append xor.assoc)
qed

theorem parity_includes_END_witness:
  "cstr [1, 2, 0] \<noteq> [] \<and> frame_of [1, 2, 0] = [START, 1, 2, 2, END]
   \<and> length [1, 2 :: byte] + 1 < MAX_MSG_LEN \<and> START \<notin> set ([1, 2] @ [2])
   \<and> END \<notin> set ([1, 2] @ [2]) \<and> length (replicate 17 (0 :: byte)) = MAX_MSG_LEN + 1
   \<and> (\<exists>st out. readPacket framer_idle [START, 1, 2, 2, END] (replicate 17 0) =
          Inr (1, st, [], out))"
  using parity_includes_END [of "[1, 2, 0]" "[1, 2]" 2 "replicate 17 0"]
  by (simp add: cstr_Cons ctrl_defs MAX_MSG_LEN_def)

theorem parity_excludes_END_counterexample:
  "frame_of [1, 2, 0] = [START, 1, 2, 2, END] \<and> START XOR 1 XOR 2 = (0x81 :: byte)
   \<and> packet_of (readPacket framer_idle [START, 1, 2, 0x81, END] (replicate 17 0))
       = Some (- 1, [1, 2])
   \<and> (START XOR 1 XOR 2 XOR 0x81) AND 0x7F = (0 :: byte)"
  by code_simp

text \<open>
  C7, as the code has it. A payload of \<open>MAX_MSG_LEN\<close> bytes or more, in particular of
  \<open>MAX_MSG_LEN + 1\<close>, is transmitted whole, with the parity byte taken over all of it.
  The framer ends the frame by force at the \<open>MAX_MSG_LEN\<close>-th stored byte, which it
  takes for the parity byte: it delivers the first \<open>MAX_MSG_LEN - 1\<close> bytes, returns 1
  or \<open>-1\<close> by the parity of START and the first \<open>MAX_MSG_LEN\<close> bytes, never an error,
  and leaves the other bytes of the frame unread.
\<close>

theorem oversized_payload:
  assumes "MAX_MSG_LEN \<le> length (cstr message)"
    and "START \<notin> set (take MAX_MSG_LEN (cstr message))"
    and "END \<notin> set (take MAX_MSG_LEN (cstr message))"
    and "length buffer = MAX_MSG_LEN + 1"
  shows "frame_of message =
           START # cstr message @ [START XOR xor_bytes (cstr message) XOR END, END]
         \<and> (\<exists>st out. readPacket framer_idle (frame_of message) buffer =
               Inr (if (START XOR xor_bytes (take MAX_MSG_LEN (cstr message))) AND 0x7F = 0
                    then 1 else - 1,
                    st,
                    drop MAX_MSG_LEN (cstr message)
                      @ [START XOR xor_bytes (cstr message) XOR END, END],
                    out)
               \<and> cstr out = take (MAX_MSG_LEN - 1) (cstr message))"
proof -
  let ?P = "cstr message"
  let ?tail = "[START XOR xor_bytes ?P XOR END, END]"
  let ?bs = "take MAX_MSG_LEN ?P"
  have ne: "?P \<noteq> []" using assms(1) by (auto simp: MAX_MSG_LEN_def)
  then have f: "frame_of message = START # ?P @ ?tail" by (rule frame_of_eq)
  have split: "START # ?P @ ?tail = START # ?bs @ (drop MAX_MSG_LEN ?P @ ?tail)"
    by simp
  have len: "length ?bs = MAX_MSG_LEN" using assms(1) by simp
  have "0 \<notin> set ?bs" using zero_notin_cstr [of message] by (auto dest: in_set_takeD)
  then have "0 \<notin> set (butlast ?bs)" by (auto dest: in_set_butlastD)
  then have c: "cstr (butlast ?bs) = butlast ?bs" by (rule cstr_no_nul)
  have bl: "butlast ?bs = take (MAX_MSG_LEN - 1) ?P"
    using assms(1) by (simp add: butlast_take)
  have cb: "cstr (butlast ?bs) = take (MAX_MSG_LEN - 1) ?P"
    using c bl by simp
  have "\<exists>st' out. readPacket framer_idle (START # ?bs @ (drop MAX_MSG_LEN ?P @ ?tail)) buffer =
            Inr (if (START XOR xor_bytes ?bs) AND 0x7F = 0 then 1 else - 1, st',
                 drop MAX_MSG_LEN ?P @ ?tail, out)
           \<and> cstr out = cstr (butlast ?bs) \<and> in_packet st' = 0 \<and> index st' = 0
           \<and> length (buf st') = MAX_MSG_LEN + 1"
    using assms(2,3,4) len by (intro readPacket_frame_full) auto
  then obtain st' out where
    "readPacket framer_idle (START # ?bs @ (drop MAX_MSG_LEN ?P @ ?tail)) buffer =
       Inr (if (START XOR xor_bytes ?bs) AND 0x7F = 0 then 1 else - 1, st',
            drop MAX_MSG_LEN ?P @ ?tail, out)"
    "cstr out = take (MAX_MSG_LEN - 1) ?P"
    unfolding cb by blast
  then show ?thesis
    unfolding f split by blast
qed

theorem oversized_payload_witness:
  "MAX_MSG_LEN \<le> length (cstr (map of_nat [1..<18] @ [0]))
   \<and> START \<notin> set (take MAX_MSG_LEN (cstr (map of_nat [1..<18] @ [0])))
   \<and> END \<notin> set (take MAX_MSG_LEN (cstr (map of_nat [1..<18] @ [0])))
   \<and> length (replicate 17 (0 :: byte)) = MAX_MSG_LEN + 1
   \<and> (\<exists>st out. readPacket framer_idle (frame_of (map of_nat [1..<18] @ [0])) (replicate 17 0)
         = Inr (- 1, st, [17, 0, END], out)
        \<and> cstr out = map of_nat [1..<16])"
proof -
  have c: "cstr (map of_nat [1..<18] @ [0]) = map of_nat [1..<18]"
    by code_simp
  have h: "MAX_MSG_LEN \<le> length (cstr (map of_nat [1..<18] @ [0]))"
    "START \<notin> set (take MAX_MSG_LEN (cstr (map of_nat [1..<18] @ [0])))"
    "END \<notin> set (take MAX_MSG_LEN (cstr (map of_nat [1..<18] @ [0])))"
    "length (replicate 17 (0 :: byte)) = MAX_MSG_LEN + 1"
    by code_simp+
  have v: "(if (START XOR xor_bytes (take MAX_MSG_LEN (cstr (map of_nat [1..<18] @ [0]))))
               AND 0x7F = 0 then 1 else - 1) = (- 1 :: int)"
    "drop MAX_MSG_LEN (cstr (map of_nat [1..<18] @ [0]))
       @ [START XOR xor_bytes (cstr (map of_nat [1..<18] @ [0])) XOR END, END] = [17, 0, END]"
    "take (MAX_MSG_LEN - 1) (cstr (map of_nat [1..<18] @ [0])) = map of_nat [1..<16]"
    by code_simp+
  show ?thesis
    using oversized_payload [OF h] h unfolding v by blast
qed

theorem oversized_payload_counterexample:
  "frame_of (map of_nat [1..<18] @ [0]) = START # map of_nat [1..<18] @ [0, END]
   \<and> packet_of (readPacket framer_idle (frame_of (map of_nat [1..<18] @ [0])) (replicate 17 0))
       = Some (- 1, map of_nat [1..<16])"
  by code_simp

text \<open>
  C9. On START followed at once by END the index steps from 0 to \<open>-1\<close> and the NUL is
  written through index \<open>-1\<close>, outside \<open>buf\<close>. When no END follows a START at once,
  in the stream or across the call boundary, every access to \<open>buf\<close> is inside it and
  the index is again in range when the call returns.
\<close>

theorem readPacket_index_guard:
  "readPacket framer_idle [START, END] buffer = Inl (IndexOutOfBounds (- 1))
   \<and> (length (buf st) = MAX_MSG_LEN + 1 \<and> 0 \<le> index st \<and> index st < int MAX_MSG_LEN
        \<and> length buffer = MAX_MSG_LEN + 1 \<and> \<not> start_then_end rx
        \<and> \<not> (in_packet st = 1 \<and> index st = 0 \<and> rx \<noteq> [] \<and> hd rx = END) \<longrightarrow>
       (\<exists>r st' rest out. readPacket st rx buffer = Inr (r, st', rest, out)
           \<and> length (buf st') = MAX_MSG_LEN + 1 \<and> 0 \<le> index st'
           \<and> index st' < int MAX_MSG_LEN))"
proof (intro conjI impI)
  show "readPacket framer_idle [START, END] buffer = Inl (IndexOutOfBounds (- 1))"
    by (simp add: framer_idle_def ctrl_defs accumulate_def terminate_def arr_write_def Let_def)
next
  assume "length (buf st) = MAX_MSG_LEN + 1 \<and> 0 \<le> index st \<and> index st < int MAX_MSG_LEN
        \<and> length buffer = MAX_MSG_LEN + 1 \<and> \<not> start_then_end rx
        \<and> \<not> (in_packet st = 1 \<and> index st = 0 \<and> rx \<noteq> [] \<and> hd rx = END)"
  then show "\<exists>r st' rest out. readPacket st rx buffer = Inr (r, st', rest, out)
           \<and> length (buf st') = MAX_MSG_LEN + 1 \<and> 0 \<le> index st'
           \<and> index st' < int MAX_MSG_LEN"
    by (intro readPacket_safe) simp_all
qed

theorem readPacket_index_guard_witness:
  "readPacket framer_idle [START, END] (replicate 17 0) = Inl (IndexOutOfBounds (- 1))
   \<and> length (buf framer_idle) = MAX_MSG_LEN + 1 \<and> 0 \<le> index framer_idle
   \<and> index framer_idle < int MAX_MSG_LEN
   \<and> length (replicate 17 (0 :: byte)) = MAX_MSG_LEN + 1
   \<and> \<not> start_then_end [START, 5, PING, 0x35, END]
   \<and> \<not> (in_packet framer_idle = 1 \<and> index framer_idle = 0
          \<and> [START, 5, PING, 0x35, END] \<noteq> [] \<and> hd [START, 5, PING, 0x35, END] = END)
   \<and> (\<exists>r st' rest out.
         readPacket framer_idle [START, 5, PING, 0x35, END] (replicate 17 0)
           = Inr (r, st', rest, out)
         \<and> length (buf st') = MAX_MSG_LEN + 1 \<and> 0 \<le> index st'
         \<and> index st' < int MAX_MSG_LEN)"
  using readPacket_index_guard [of "replicate 17 0" framer_idle "[START, 5, PING, 0x35, END]"]
  by (simp add: ctrl_defs MAX_MSG_LEN_def)

subsection \<open>The client responder\<close>

lemma terminate_nonzero: "terminate st buffer = Inr (r, st', out) \<Longrightarrow> r \<noteq> 0"
  by (auto simp: terminate_def Let_def split: sum.splits if_splits)

lemma readPacket_no_packet:
  "readPacket st rx buffer = Inr (0, st', rest, out) \<Longrightarrow> out = buffer \<and> rest = []"
proof (induction rx arbitrary: st)
  case Nil
  then show ?case by simp
next
  case (Cons rc rx)
  show ?case
  proof (cases "rc = START")
    case True
    then show ?thesis using Cons.prems Cons.IH by simp
  next
    case notS: False
    show ?thesis
    proof (cases "in_packet st = 1")
      case False
      then show ?thesis using notS Cons.prems Cons.IH by simp
    next
      case True
      then obtain st1 where acc: "accumulate st rc = Inr st1"
        using notS Cons.prems by (cases "accumulate st rc") auto
      show ?thesis
      proof (cases "rc = END \<or> int MAX_MSG_LEN \<le> index st1")
        case False
        then show ?thesis using notS True acc Cons.prems Cons.IH by simp
      next
        case fin: True
        then obtain r st2 out2 where t: "terminate st1 buffer = Inr (r, st2, out2)"
          using notS True acc Cons.prems by (cases "terminate st1 buffer") auto
        then have "r \<noteq> 0" by (rule terminate_nonzero)
        moreover have "r = 0" using notS True acc fin t Cons.prems by auto
        ultimately show ?thesis by simp
      qed
    qed
  qed
qed

text \<open>
  C10. When \<open>readPacket\<close> returns 0 it has consumed every byte and has not written to
  the block; \<open>receiveEvent\<close> then takes the pending command from byte 1 of the block as
  \<open>malloc\<close> delivered it, and that byte decides whether the block is put on the inbound
  queue.
\<close>

theorem receiveEvent_reads_unwritten_block:
  assumes "readPacket (statics g) (rx_avail (Wire g)) block = Inr (0, st, rest, out)"
    and "length block = MAX_MSG_LEN + 1"
  shows "out = block \<and> rest = []
         \<and> (\<exists>g'. receiveEvent howMany (Some block) node_ok g = Inr g'
               \<and> currentCommand g' = block ! 1
               \<and> in_messages g' =
                   (if block ! 1 \<noteq> PING \<and> block ! 1 \<noteq> READ \<and> block ! 1 \<noteq> NO_DATA
                    then snd (stringQueueAdd (in_messages g) block node_ok)
                    else in_messages g))"
proof -
  have o: "out = block" "rest = []"
    using readPacket_no_packet [OF assms(1)] by simp_all
  have r: "arr_read block 1 = Inr (block ! 1)"
    using assms(2) by (simp add: arr_read_def MAX_MSG_LEN_def)
  show ?thesis
    using assms(1) o r by (simp add: receiveEvent_def Let_def)
qed

theorem receiveEvent_reads_unwritten_block_witness:
  "readPacket (statics (deliver [START, 5] (snd (SWireClient_new 5 globals_init))))
      (rx_avail (Wire (deliver [START, 5] (snd (SWireClient_new 5 globals_init)))))
      (replicate 17 0xAA)
     = Inr (0, framer_idle\<lparr>in_packet := 1, index := 1, data_parity := 0x87,
              buf := 5 # replicate 16 0\<rparr>, [], replicate 17 0xAA)
   \<and> length (replicate 17 (0xAA :: byte)) = MAX_MSG_LEN + 1
   \<and> (\<exists>g'. receiveEvent 2 (Some (replicate 17 0xAA)) True
              (deliver [START, 5] (snd (SWireClient_new 5 globals_init))) = Inr g'
         \<and> currentCommand g' = 0xAA
         \<and> items (in_messages g') = [replicate 17 0xAA])"
proof -
  let ?g = "deliver [START, 5] (snd (SWireClient_new 5 globals_init))"
  have h1: "readPacket (statics ?g) (rx_avail (Wire ?g)) (replicate 17 0xAA)
     = Inr (0, framer_idle\<lparr>in_packet := 1, index := 1, data_parity := 0x87,
              buf := 5 # replicate 16 0\<rparr>, [], replicate 17 0xAA)"
    by code_simp
  have h2: "length (replicate 17 (0xAA :: byte)) = MAX_MSG_LEN + 1"
    by (simp add: MAX_MSG_LEN_def)
  have v: "replicate 17 (0xAA :: byte) ! 1 = 0xAA" by simp
  have q: "items (snd (stringQueueAdd (in_messages ?g) (replicate 17 0xAA) True))
             = [replicate 17 0xAA]"
    by code_simp
  show ?thesis
    using receiveEvent_reads_unwritten_block [OF h1 h2, of 2 True] h1 h2 q
    unfolding v by (auto simp: ctrl_defs)
qed

lemma requestEvent_total: "\<exists>g'. requestEvent g = Inr g' \<and> currentCommand g' = NO_DATA"
  by (auto simp: requestEvent_def stringQueueIsEmpty_def stringQueueRemove_def Let_def
      split: list.splits)

text \<open>
  C6. Every request event ends with \<open>currentCommand\<close> reset to \<open>NO_DATA\<close>. With PING
  pending, the first request event writes ACK and the next one, with no receive event in
  between, writes \<open>NO_DATA\<close>.
\<close>

theorem single_shot_command:
  "(\<exists>g1. requestEvent g = Inr g1 \<and> currentCommand g1 = NO_DATA)
   \<and> (currentCommand g = PING \<longrightarrow>
        (\<exists>g1 g2. requestEvent g = Inr g1
           \<and> tx_buf (Wire g1) = tx_buf (Wire g) @ [ACK]
           \<and> requestEvent g1 = Inr g2
           \<and> tx_buf (Wire g2) = tx_buf (Wire g) @ [ACK, NO_DATA]
           \<and> currentCommand g2 = NO_DATA))"
proof (intro conjI impI)
  show "\<exists>g1. requestEvent g = Inr g1 \<and> currentCommand g1 = NO_DATA"
    by (rule requestEvent_total)
next
  assume p: "currentCommand g = PING"
  let ?g1 = "g\<lparr>Wire := Wire_write ACK (Wire g), currentCommand := NO_DATA\<rparr>"
  let ?g2 = "?g1\<lparr>Wire := Wire_write NO_DATA (Wire ?g1), currentCommand := NO_DATA\<rparr>"
  have 1: "requestEvent g = Inr ?g1"
    using p by (simp add: requestEvent_def ctrl_defs)
  have 2: "requestEvent ?g1 = Inr ?g2"
    by (simp add: requestEvent_def)
  show "\<exists>g1 g2. requestEvent g = Inr g1
           \<and> tx_buf (Wire g1) = tx_buf (Wire g) @ [ACK]
           \<and> requestEvent g1 = Inr g2
           \<and> tx_buf (Wire g2) = tx_buf (Wire g) @ [ACK, NO_DATA]
           \<and> currentCommand g2 = NO_DATA"
    using 1 2 by (intro exI [of _ ?g1] exI [of _ ?g2]) (simp add: Wire_write_def)
qed

theorem single_shot_command_witness:
  "\<exists>g g1 g2.
     receiveEvent 5 (Some (replicate 17 0))
       True (deliver (frame_of [5, PING, 0]) (snd (SWireClient_new 5 globals_init))) = Inr g
     \<and> currentCommand g = PING \<and> items (in_messages g) = []
     \<and> requestEvent g = Inr g1 \<and> tx_buf (Wire g1) = [ACK]
     \<and> requestEvent g1 = Inr g2 \<and> tx_buf (Wire g2) = [ACK, NO_DATA]
     \<and> currentCommand g2 = NO_DATA"
proof -
  let ?g = "\<lparr>in_messages = \<lparr>items = [], capacity = 20\<rparr>,
             out_messages = \<lparr>items = [], capacity = 20\<rparr>, currentCommand = PING,
             bufferAlocFailed = False,
             statics = \<lparr>in_packet = 0, index = 0, buf = 5 # PING # replicate 15 0,
                         data_parity = 0, escape_next = 0\<rparr>,
             Wire = wire_idle\<rparr>"
  have r: "receiveEvent 5 (Some (replicate 17 0))
       True (deliver (frame_of [5, PING, 0]) (snd (SWireClient_new 5 globals_init))) = Inr ?g"
    by code_simp
  have p: "currentCommand ?g = PING" "items (in_messages ?g) = []"
    "tx_buf (Wire ?g) = []"
    by (simp_all add: wire_idle_def)
  show ?thesis
    using single_shot_command [of ?g] r p by simp
qed

text \<open>
  C2. A frame with a wrong parity byte is delivered to a client: \<open>readPacket\<close> returns
  \<open>-1\<close>, and the receive event nevertheless takes the pending command from the frame
  and puts its payload on the inbound queue.
\<close>

theorem receiveEvent_keeps_invalid_frame:
  "packet_of (readPacket framer_idle [START, 5, 0x41, 0x42, 0x11, END] (replicate 17 0))
     = Some (- 1, [5, 0x41, 0x42])
   \<and> client_view (receiveEvent 6 (Some (replicate 17 0)) True
        (deliver [START, 5, 0x41, 0x42, 0x11, END] (snd (SWireClient_new 5 globals_init))))
     = Some (0x41, [[5, 0x41, 0x42]])"
  by code_simp

subsection \<open>Sending\<close>

text \<open>
  C5. The outbound queue of a client holds \<open>MAX_CLIENT_QUEUE_SIZE\<close> messages. The queue
  refuses the next one, and \<open>sendData\<close> returns 1 with the queue as it was.
\<close>

theorem client_sendData_full_queue:
  "fst (stringQueueAdd \<lparr>items = replicate 20 (5 # 0x68 # replicate 15 0),
                         capacity = MAX_CLIENT_QUEUE_SIZE\<rparr>
          (5 # 0x68 # 0x69 # replicate 14 0) True) = False
   \<and> SWireClient_sendData \<lparr>client_number = 5\<rparr> [0x68, 0x69, 0] (Some (replicate 17 0)) True
        ((snd (SWireClient_new 5 globals_init))
           \<lparr>out_messages := \<lparr>items = replicate 20 (5 # 0x68 # replicate 15 0),
                               capacity = MAX_CLIENT_QUEUE_SIZE\<rparr>\<rparr>)
     = Inr (1, (snd (SWireClient_new 5 globals_init))
                 \<lparr>out_messages := \<lparr>items = replicate 20 (5 # 0x68 # replicate 15 0),
                                     capacity = MAX_CLIENT_QUEUE_SIZE\<rparr>\<rparr>)"
  by code_simp

text \<open>
  C4. Clients 3 and 16 answer a PING with ACK. The discovery run addresses 1 to 15 only:
  it finds client 3, never addresses 16, and returns 1.
\<close>

theorem identifyClients_skips_last:
  "discovery_view (SWireMaster_identifyClients (\<lambda>a. if a = 3 \<or> a = 16 then [ACK] else [])
      (fst (SWireMaster_new globals_init)) (snd (SWireMaster_new globals_init)))
     = Some (1, 3 # replicate 15 0, map of_nat [1..<16])"
  by code_simp





end
